theory Spec2Isabelle
  imports Main "HOL-Library.Word"
begin

section \<open>Data model\<close>

text \<open>
  Shallow embedding of \<^verbatim>\<open>backend/backend.go\<close> of cryptag: the creation of tag pairs
  (\<^verbatim>\<open>NewTagPair\<close>, \<^verbatim>\<open>CreateTag\<close>), the concurrent batch creation
  (\<^verbatim>\<open>CreateTagsFromPlain\<close>) and the population of a row (\<^verbatim>\<open>PopulateRowBeforeSave\<close>).

  A Go \<^verbatim>\<open>string\<close> is a sequence of bytes and is modelled by \<^typ>\<open>string\<close>; a
  \<^verbatim>\<open>[]byte\<close>, a nonce \<^verbatim>\<open>*[24]byte\<close> and a key \<^verbatim>\<open>*[32]byte\<close> are lists of 8-bit words.
\<close>

type_synonym byte = "8 word"
type_synonym bytes = "byte list"

text \<open>
  Go errors are values carrying a message. Each constructor is one place where the source
  builds an error: \<open>External\<close> is an error handed back by a capability the file only calls
  (the nonce source, the cipher, the backend); the others are the four \<^verbatim>\<open>fmt.Errorf\<close> calls.
\<close>

datatype error =
    External string
  | StorageError string error
  | BatchError error
  | MissingTagPairError string
  | CryptoError error

text \<open>The message of an error, as \<^verbatim>\<open>fmt.Errorf\<close> formats it in the source.\<close>

fun Error :: "error \<Rightarrow> string" where
  "Error (External msg) = msg"
| "Error (StorageError name err) =
     ''Error saving tag pair to backend '' @ name @ '': '' @ Error err"
| "Error (BatchError err) = ''Error from CreateNewTagsFromPlain: '' @ Error err"
| "Error (MissingTagPairError plain) =
     ''No corresponding TagPair found for plain tag `'' @ plain @ ''`''"
| "Error (CryptoError err) = ''Error encrypting data: '' @ Error err"

text \<open>
  Modelled from the spec: the struct \<^verbatim>\<open>types.TagPair\<close> (package \<^verbatim>\<open>types\<close> is not part of
  the file). Section 3 of the specification lists its fields: the encrypted plaintext tag,
  the random tag, the nonce, and the plaintext kept in memory only.
\<close>

record TagPair =
  PlainEncrypted :: bytes
  Random :: string
  Nonce :: bytes
  Plain :: string

text \<open>
  Modelled from the spec: the struct \<^verbatim>\<open>types.Row\<close>, with the fields of section 3. The
  source reads \<^verbatim>\<open>row.PlainTags()\<close>, \<^verbatim>\<open>row.Decrypted()\<close> and \<^verbatim>\<open>row.Nonce\<close> and writes
  \<^verbatim>\<open>row.RandomTags\<close> and \<^verbatim>\<open>row.Encrypted\<close>.
\<close>

record Row =
  Encrypted :: bytes
  RandomTags :: "string list"
  Decrypted :: bytes
  PlainTags :: "string list"
  RowNonce :: bytes

text \<open>
  The unexported fields \<^verbatim>\<open>plain\<close>, \<^verbatim>\<open>plainTags\<close> and \<^verbatim>\<open>decrypted\<close> carry the names of
  their accessors \<^verbatim>\<open>Plain()\<close>, \<^verbatim>\<open>PlainTags()\<close> and \<^verbatim>\<open>Decrypted()\<close>, through which the file
  reads them.

  Modelled from the spec: the constructor \<^verbatim>\<open>types.NewTagPair(plainEnc, rand, nonce, plaintag)\<close>
  of package \<^verbatim>\<open>types\<close>, which stores the four fields, and \<^verbatim>\<open>pairs.AllPlain()\<close>, the sequence
  of the plaintext values of \<^verbatim>\<open>pairs\<close>.
\<close>

definition types_NewTagPair :: "bytes \<Rightarrow> string \<Rightarrow> bytes \<Rightarrow> string \<Rightarrow> TagPair" where
  "types_NewTagPair plainEnc rand nonce plaintag =
     \<lparr>PlainEncrypted = plainEnc, Random = rand, Nonce = nonce, Plain = plaintag\<rparr>"

definition AllPlain :: "TagPair list \<Rightarrow> string list" where
  "AllPlain pairs = map Plain pairs"

text \<open>
  The interface \<^verbatim>\<open>Backend\<close>, restricted to the three methods the functions of the file
  call. \<^verbatim>\<open>SaveTagPair\<close> is the only one with an effect: it takes the state \<open>'s\<close> of the
  storage and returns the new one with its error (\<open>None\<close> is \<^verbatim>\<open>nil\<close>). The row and
  configuration methods of the interface are never called here.
\<close>

record 's Backend =
  Name :: string
  Key :: bytes
  SaveTagPair :: "TagPair \<Rightarrow> 's \<Rightarrow> error option \<times> 's"

text \<open>
  The cipher \<^verbatim>\<open>cryptag.Encrypt(plaintext, nonce, key)\<close> is a parameter of the model: a
  function that returns the ciphertext or an error.
\<close>

type_synonym cipher = "bytes \<Rightarrow> bytes \<Rightarrow> bytes \<Rightarrow> error + bytes"

text \<open>
  What one call of \<^verbatim>\<open>NewTagPair\<close> reads from the secure random source: the numbers drawn
  for the random tag and the result of \<^verbatim>\<open>cryptag.RandomNonce()\<close>.
\<close>

record entropy =
  draws :: "nat \<Rightarrow> nat"
  nonceResult :: "error + bytes"

section \<open>Creation of one tag pair\<close>

definition RANDOM_TAG_ALPHABET :: string where
  "RANDOM_TAG_ALPHABET = ''abcdefghijklmnopqrstuvwxyz0123456789''"

definition RANDOM_TAG_LENGTH :: nat where
  "RANDOM_TAG_LENGTH = 9"

text \<open>
  Modelled from the spec: \<^verbatim>\<open>fun.RandomString(alphabet, length)\<close> of the library
  \<^verbatim>\<open>elimisteve/fun\<close>, which is not part of the file. Section 4.1: a random string of the
  given length drawn from the alphabet. The \<open>i\<close>-th symbol is chosen by the \<open>i\<close>-th number
  drawn, reduced modulo the size of the alphabet.
\<close>

definition RandomString :: "string \<Rightarrow> nat \<Rightarrow> (nat \<Rightarrow> nat) \<Rightarrow> string" where
  "RandomString alphabet n rnd = map (\<lambda>i. alphabet ! (rnd i mod length alphabet)) [0..<n]"

text \<open>
  Modelled from the spec: \<^verbatim>\<open>fun.SliceContains(slice, s)\<close> of the same library: whether
  \<open>s\<close> is an element of the slice.
\<close>

fun SliceContains :: "string list \<Rightarrow> string \<Rightarrow> bool" where
  "SliceContains [] s = False"
| "SliceContains (x # rest) s = (if x = s then True else SliceContains rest s)"

text \<open>The conversion \<^verbatim>\<open>[]byte(plaintag)\<close>.\<close>

definition bytes_of :: "string \<Rightarrow> bytes" where
  "bytes_of s = map of_char s"

definition NewTagPair :: "cipher \<Rightarrow> entropy \<Rightarrow> bytes \<Rightarrow> string \<Rightarrow> error + TagPair" where
  "NewTagPair Encrypt e key plaintag =
     (let rand = RandomString RANDOM_TAG_ALPHABET RANDOM_TAG_LENGTH (draws e) in
      case nonceResult e of
        Inl err \<Rightarrow> Inl err
      | Inr nonce \<Rightarrow>
          (case Encrypt (bytes_of plaintag) nonce key of
             Inl err \<Rightarrow> Inl err
           | Inr plainEnc \<Rightarrow> Inr (types_NewTagPair plainEnc rand nonce plaintag)))"

definition CreateTag ::
  "cipher \<Rightarrow> 's Backend \<Rightarrow> entropy \<Rightarrow> string \<Rightarrow> 's \<Rightarrow> (error + TagPair) \<times> 's" where
  "CreateTag Encrypt bk e plaintag s =
     (case NewTagPair Encrypt e (Key bk) plaintag of
        Inl err \<Rightarrow> (Inl err, s)
      | Inr pair \<Rightarrow>
          (case SaveTagPair bk pair s of
             (Some err, s') \<Rightarrow> (Inl (StorageError (Name bk) err), s')
           | (None, s') \<Rightarrow> (Inr pair, s')))"

section \<open>Batch creation\<close>

text \<open>
  The first loop of \<^verbatim>\<open>CreateTagsFromPlain\<close> scans \<^verbatim>\<open>plaintags\<close> and, for each entry that
  \<^verbatim>\<open>existingPlain\<close> does not contain, appends a channel to \<^verbatim>\<open>chs\<close> and starts a goroutine
  bound to that channel and to the entry. \<open>launch\<close> returns the entries of the goroutines
  started, in the order of their channels.
\<close>

fun launch :: "string list \<Rightarrow> string list \<Rightarrow> string list \<Rightarrow> string list" where
  "launch existingPlain [] units = units"
| "launch existingPlain (plain # plaintags) units =
     (if \<not> SliceContains existingPlain plain
      then launch existingPlain plaintags (units @ [plain])
      else launch existingPlain plaintags units)"

text \<open>
  The body of a goroutine: it calls \<^verbatim>\<open>CreateTag\<close> and sends \<^verbatim>\<open>nil\<close> (\<open>None\<close>) on its channel
  after an error, the pair otherwise. The lines written to the log are not modelled.
\<close>

definition worker ::
  "cipher \<Rightarrow> 's Backend \<Rightarrow> entropy \<Rightarrow> string \<Rightarrow> 's \<Rightarrow> TagPair option \<times> 's" where
  "worker Encrypt bk e plain s =
     (case CreateTag Encrypt bk e plain s of
        (Inl err, s') \<Rightarrow> (None, s')
      | (Inr pair, s') \<Rightarrow> (Some pair, s'))"

text \<open>
  The goroutines run concurrently. The model lets their calls of \<^verbatim>\<open>CreateTag\<close> take
  effect on the backend one after the other, in an order that the scheduler chooses: the
  list \<open>sched\<close> names goroutines by the index of their channel, and the goroutines it does
  not name run after the others (the Go runtime runs every goroutine that was started).
  Every order of completion is \<open>completionOrder n sched\<close> for some \<open>sched\<close>.
\<close>

definition completionOrder :: "nat \<Rightarrow> nat list \<Rightarrow> nat list" where
  "completionOrder n sched =
     filter (\<lambda>i. i < n) (remdups sched) @ filter (\<lambda>i. i \<notin> set sched) [0..<n]"

text \<open>
  The state of the channels is a list with one entry per channel: \<open>None\<close> while nothing
  was sent on it, \<open>Some v\<close> once its goroutine has the value \<open>v\<close> to send. Goroutine \<open>i\<close>
  reads its own entropy \<open>ent i\<close>.
\<close>

fun runUnits ::
  "cipher \<Rightarrow> 's Backend \<Rightarrow> (nat \<Rightarrow> entropy) \<Rightarrow> string list \<Rightarrow> nat list \<Rightarrow>
   TagPair option option list \<times> 's \<Rightarrow> TagPair option option list \<times> 's" where
  "runUnits Encrypt bk ent units [] (chs, s) = (chs, s)"
| "runUnits Encrypt bk ent units (i # order) (chs, s) =
     (case worker Encrypt bk (ent i) (units ! i) s of
        (sent, s') \<Rightarrow> runUnits Encrypt bk ent units order (chs[i := Some sent], s'))"

text \<open>
  The second loop receives from the channels in the order of their allocation and appends
  the pairs that are not \<^verbatim>\<open>nil\<close>. A receive on a channel nobody sends on never returns:
  the result is then \<open>None\<close>.
\<close>

fun drain :: "TagPair option option list \<Rightarrow> TagPair list \<Rightarrow> TagPair list option" where
  "drain [] newPairs = Some newPairs"
| "drain (None # chs) newPairs = None"
| "drain (Some None # chs) newPairs = drain chs newPairs"
| "drain (Some (Some p) # chs) newPairs = drain chs (newPairs @ [p])"

text \<open>The entries of \<^verbatim>\<open>plaintags\<close> for which a goroutine is started.\<close>

definition missingTags :: "string list \<Rightarrow> TagPair list \<Rightarrow> string list" where
  "missingTags plaintags pairs = launch (AllPlain pairs) plaintags []"

text \<open>The channels and the backend once every goroutine has called \<^verbatim>\<open>CreateTag\<close>.\<close>

definition runBatch ::
  "cipher \<Rightarrow> 's Backend \<Rightarrow> (nat \<Rightarrow> entropy) \<Rightarrow> string list \<Rightarrow> TagPair list \<Rightarrow> nat list \<Rightarrow>
   's \<Rightarrow> TagPair option option list \<times> 's" where
  "runBatch Encrypt bk ent plaintags pairs sched s =
     (let units = missingTags plaintags pairs in
      runUnits Encrypt bk ent units (completionOrder (length units) sched)
        (replicate (length units) None, s))"

text \<open>
  \<^verbatim>\<open>CreateTagsFromPlain\<close> returns the new pairs, its error and the state of the backend;
  \<open>None\<close> stands for a call that never returns.
\<close>

definition CreateTagsFromPlain ::
  "cipher \<Rightarrow> 's Backend \<Rightarrow> (nat \<Rightarrow> entropy) \<Rightarrow> string list \<Rightarrow> TagPair list \<Rightarrow> nat list \<Rightarrow>
   's \<Rightarrow> (TagPair list \<times> error option \<times> 's) option" where
  "CreateTagsFromPlain Encrypt bk ent plaintags pairs sched s =
     (case runBatch Encrypt bk ent plaintags pairs sched s of
        (chs, s') \<Rightarrow>
          (case drain chs [] of
             None \<Rightarrow> None
           | Some newPairs \<Rightarrow> Some (newPairs, None, s')))"

section \<open>Population of a row\<close>

text \<open>
  The inner loop of \<^verbatim>\<open>PopulateRowBeforeSave\<close> over \<^verbatim>\<open>allTagPairs\<close>, from index \<open>i\<close> on,
  with \<open>n\<close> the length of the whole slice. It ends in one of three ways: a pair matched
  (\<^verbatim>\<open>break\<close>), the function returned its error at the last index, or the range was
  exhausted without either.
\<close>

datatype scan = Found string | NotFound | Exhausted

fun scanFrom :: "string \<Rightarrow> nat \<Rightarrow> nat \<Rightarrow> TagPair list \<Rightarrow> scan" where
  "scanFrom plain n i [] = Exhausted"
| "scanFrom plain n i (pair # rest) =
     (if plain = Plain pair then Found (Random pair)
      else if int i = int n - 1 then NotFound
      else scanFrom plain n (i + 1) rest)"

definition scanPairs :: "string \<Rightarrow> TagPair list \<Rightarrow> scan" where
  "scanPairs plain allTagPairs = scanFrom plain (length allTagPairs) 0 allTagPairs"

text \<open>The outer loop over \<^verbatim>\<open>row.PlainTags()\<close>, with the slice \<^verbatim>\<open>randtags\<close> built so far.\<close>

fun resolveTags :: "TagPair list \<Rightarrow> string list \<Rightarrow> string list \<Rightarrow> error + string list" where
  "resolveTags allTagPairs [] randtags = Inr randtags"
| "resolveTags allTagPairs (plain # plainTags) randtags =
     (case scanPairs plain allTagPairs of
        Found random \<Rightarrow> resolveTags allTagPairs plainTags (randtags @ [random])
      | NotFound \<Rightarrow> Inl (MissingTagPairError plain)
      | Exhausted \<Rightarrow> resolveTags allTagPairs plainTags randtags)"

text \<open>
  \<^verbatim>\<open>PopulateRowBeforeSave\<close> returns the new pairs and its error; the row and the state of
  the backend after the call are returned with them, since the source mutates the row in
  place and the backend through \<^verbatim>\<open>SaveTagPair\<close>.
\<close>

definition PopulateRowBeforeSave ::
  "cipher \<Rightarrow> 's Backend \<Rightarrow> (nat \<Rightarrow> entropy) \<Rightarrow> Row \<Rightarrow> TagPair list \<Rightarrow> nat list \<Rightarrow> 's \<Rightarrow>
   (TagPair list \<times> error option \<times> Row \<times> 's) option" where
  "PopulateRowBeforeSave Encrypt bk ent row pairs sched s =
     (case CreateTagsFromPlain Encrypt bk ent (PlainTags row) pairs sched s of
        None \<Rightarrow> None
      | Some (newPairs, Some err, s') \<Rightarrow> Some (newPairs, Some (BatchError err), row, s')
      | Some (newPairs, None, s') \<Rightarrow>
          (let allTagPairs = pairs @ newPairs in
           case resolveTags allTagPairs (PlainTags row) [] of
             Inl err \<Rightarrow> Some (newPairs, Some err, row, s')
           | Inr randtags \<Rightarrow>
               (let row1 = row\<lparr>RandomTags := randtags\<rparr> in
                case Encrypt (Decrypted row1) (RowNonce row1) (Key bk) of
                  Inl err \<Rightarrow> Some (newPairs, Some (CryptoError err), row1, s')
                | Inr encData \<Rightarrow> Some (newPairs, None, row1\<lparr>Encrypted := encData\<rparr>, s'))))"

section \<open>Auxiliary definitions\<close>

text \<open>
  What the value on channel \<open>i\<close> looks like when it is a pair: the pair that goroutine \<open>i\<close>
  built for its own entry, with the random tag drawn from its own entropy.
\<close>

definition sentBy :: "(nat \<Rightarrow> entropy) \<Rightarrow> string list \<Rightarrow> nat \<Rightarrow> TagPair option option \<Rightarrow> bool" where
  "sentBy ent units i c =
     (case c of
        Some (Some pair) \<Rightarrow>
          Plain pair = units ! i \<and>
          Random pair = RandomString RANDOM_TAG_ALPHABET RANDOM_TAG_LENGTH (draws (ent i))
      | _ \<Rightarrow> True)"

text \<open>The pairs among the values on the channels, in the order of the channels.\<close>

fun received :: "TagPair option option list \<Rightarrow> TagPair list" where
  "received [] = []"
| "received (Some (Some pair) # chs) = pair # received chs"
| "received (c # chs) = received chs"

section \<open>An example environment\<close>

text \<open>
  Concrete capabilities on which the model is run: a cipher that rejects a missing nonce
  and otherwise prepends the nonce to the plaintext; a backend that stores every pair, one
  that refuses every pair, and one with room for a single pair; an entropy source; two
  known pairs for the same plaintext tag; and rows to populate.
\<close>

definition demoCipher :: cipher where
  "demoCipher plaintext nonce key =
     (if nonce = [] then Inl (External ''nil nonce'') else Inr (nonce @ plaintext))"

definition memBackend :: "TagPair list Backend" where
  "memBackend = \<lparr>Name = ''mem'', Key = [1, 2, 3], SaveTagPair = (\<lambda>pair s. (None, s @ [pair]))\<rparr>"

definition downBackend :: "TagPair list Backend" where
  "downBackend =
     \<lparr>Name = ''down'', Key = [1, 2, 3],
      SaveTagPair = (\<lambda>pair s. (Some (External ''unreachable''), s))\<rparr>"

definition fullBackend :: "TagPair list Backend" where
  "fullBackend =
     \<lparr>Name = ''full'', Key = [1, 2, 3],
      SaveTagPair = (\<lambda>pair s. if s = [] then (None, [pair]) else (Some (External ''full''), s))\<rparr>"

definition unitEntropy :: "nat \<Rightarrow> entropy" where
  "unitEntropy i = \<lparr>draws = (\<lambda>k. 7 * i + k), nonceResult = Inr [of_nat (Suc i)]\<rparr>"

definition workPair :: TagPair where
  "workPair = \<lparr>PlainEncrypted = [7], Random = ''known0001'', Nonce = [5], Plain = ''work''\<rparr>"

definition workPair2 :: TagPair where
  "workPair2 = \<lparr>PlainEncrypted = [8], Random = ''known0002'', Nonce = [6], Plain = ''work''\<rparr>"

definition demoRow :: "string list \<Rightarrow> bytes \<Rightarrow> Row" where
  "demoRow tags nonce =
     \<lparr>Encrypted = [0], RandomTags = [''stale''], Decrypted = [104, 105], PlainTags = tags,
      RowNonce = nonce\<rparr>"

section \<open>Properties of the batch creation\<close>

lemma SliceContains_iff: "SliceContains xs s \<longleftrightarrow> s \<in> set xs"
  by (induction xs) auto

lemma launch_filter:
  "launch existingPlain plaintags units =
     units @ filter (\<lambda>plain. plain \<notin> set existingPlain) plaintags"
  by (induction plaintags arbitrary: units) (simp_all add: SliceContains_iff)

lemma missingTags_filter:
  "missingTags plaintags pairs = filter (\<lambda>plain. plain \<notin> Plain ` set pairs) plaintags"
  by (simp add: missingTags_def launch_filter AllPlain_def)

lemma completionOrder_set: "set (completionOrder n sched) = {..<n}"
  by (auto simp: completionOrder_def)

lemma completionOrder_distinct: "distinct (completionOrder n sched)"
  by (auto simp: completionOrder_def)


lemma NewTagPair_fields:
  assumes "NewTagPair Encrypt e key plaintag = Inr pair"
  shows "Plain pair = plaintag"
    and "Random pair = RandomString RANDOM_TAG_ALPHABET RANDOM_TAG_LENGTH (draws e)"
  using assms
  by (auto simp: NewTagPair_def types_NewTagPair_def split: sum.splits)

lemma CreateTag_fields:
  assumes "CreateTag Encrypt bk e plaintag s = (Inr pair, s')"
  shows "Plain pair = plaintag"
    and "Random pair = RandomString RANDOM_TAG_ALPHABET RANDOM_TAG_LENGTH (draws e)"
  using assms
  by (auto simp: CreateTag_def split: sum.splits prod.splits option.splits
      dest: NewTagPair_fields)

lemma worker_fields:
  assumes "worker Encrypt bk e plain s = (Some pair, s')"
  shows "Plain pair = plain"
    and "Random pair = RandomString RANDOM_TAG_ALPHABET RANDOM_TAG_LENGTH (draws e)"
  using assms
  by (auto simp: worker_def split: sum.splits prod.splits dest: CreateTag_fields)

lemma RandomString_length: "length (RandomString alphabet n rnd) = n"
  by (simp add: RandomString_def)

lemma RandomString_set:
  "alphabet \<noteq> [] \<Longrightarrow> set (RandomString alphabet n rnd) \<subseteq> set alphabet"
  by (auto simp: RandomString_def)

lemma runUnits_length:
  "length (fst (runUnits Encrypt bk ent units order (chs, s))) = length chs"
  by (induction order arbitrary: chs s) (auto split: prod.splits)

lemma runUnits_filled:
  "i < length chs \<Longrightarrow> i \<in> set order \<or> chs ! i \<noteq> None \<Longrightarrow>
   fst (runUnits Encrypt bk ent units order (chs, s)) ! i \<noteq> None"
proof (induction order arbitrary: chs s)
  case Nil
  then show ?case by simp
next
  case (Cons j order)
  obtain sent s' where w: "worker Encrypt bk (ent j) (units ! j) s = (sent, s')"
    by (cases "worker Encrypt bk (ent j) (units ! j) s")
  have "i \<in> set order \<or> chs[j := Some sent] ! i \<noteq> None"
    using Cons.prems by (cases "i = j") auto
  with Cons.IH [of "chs[j := Some sent]" s'] Cons.prems(1) w show ?case
    by simp
qed

lemma runUnits_sentBy:
  "(\<forall>i<length chs. sentBy ent units i (chs ! i)) \<Longrightarrow>
   i < length chs \<Longrightarrow>
   sentBy ent units i (fst (runUnits Encrypt bk ent units order (chs, s)) ! i)"
proof (induction order arbitrary: chs s)
  case Nil
  then show ?case by simp
next
  case (Cons j order)
  obtain sent s' where w: "worker Encrypt bk (ent j) (units ! j) s = (sent, s')"
    by (cases "worker Encrypt bk (ent j) (units ! j) s")
  have new: "sentBy ent units j (Some sent)"
    using worker_fields [of Encrypt bk "ent j" "units ! j" s] w
    by (cases sent) (auto simp: sentBy_def)
  have "sentBy ent units k (chs[j := Some sent] ! k)" if "k < length chs" for k
    using Cons.prems(1) new that by (cases "k = j") auto
  then have "\<forall>k<length (chs[j := Some sent]). sentBy ent units k (chs[j := Some sent] ! k)"
    by simp
  with Cons.IH [of "chs[j := Some sent]" s'] Cons.prems(2) w show ?case
    by simp
qed


lemma drain_received:
  "None \<notin> set chs \<Longrightarrow> drain chs newPairs = Some (newPairs @ received chs)"
  by (induction chs newPairs rule: drain.induct) auto

lemma runBatch_length:
  "length (fst (runBatch Encrypt bk ent plaintags pairs sched s)) =
   length (missingTags plaintags pairs)"
  by (simp add: runBatch_def Let_def runUnits_length)

lemma runBatch_filled: "None \<notin> set (fst (runBatch Encrypt bk ent plaintags pairs sched s))"
proof
  let ?units = "missingTags plaintags pairs"
  let ?chs = "fst (runBatch Encrypt bk ent plaintags pairs sched s)"
  assume "None \<in> set ?chs"
  then obtain i where i: "i < length ?chs" "?chs ! i = None"
    by (metis in_set_conv_nth)
  then have "i < length ?units"
    by (simp add: runBatch_length)
  then have "i \<in> set (completionOrder (length ?units) sched)"
    by (simp add: completionOrder_set)
  then have "?chs ! i \<noteq> None"
    unfolding runBatch_def Let_def using \<open>i < length ?units\<close>
    by (intro runUnits_filled) simp_all
  with i show False by simp
qed

lemma runBatch_sentBy:
  assumes "i < length (missingTags plaintags pairs)"
  shows "sentBy ent (missingTags plaintags pairs) i
           (fst (runBatch Encrypt bk ent plaintags pairs sched s) ! i)"
  unfolding runBatch_def Let_def using assms
  by (intro runUnits_sentBy) (simp_all add: sentBy_def)

lemma CreateTagsFromPlain_eq:
  "CreateTagsFromPlain Encrypt bk ent plaintags pairs sched s =
     Some (received (fst (runBatch Encrypt bk ent plaintags pairs sched s)), None,
           snd (runBatch Encrypt bk ent plaintags pairs sched s))"
proof (cases "runBatch Encrypt bk ent plaintags pairs sched s")
  case (Pair chs s')
  with runBatch_filled [of Encrypt bk ent plaintags pairs sched s]
  have "None \<notin> set chs" by simp
  with Pair show ?thesis
    by (simp add: CreateTagsFromPlain_def drain_received)
qed

lemma received_Plain:
  "list_all2 (\<lambda>u c. c \<noteq> None \<and> (\<forall>pair. c = Some (Some pair) \<longrightarrow> Plain pair = u)) units chs \<Longrightarrow>
   map Plain (received chs) = map fst (filter (\<lambda>(plain, c). c \<noteq> Some None) (zip units chs))"
proof (induction rule: list_all2_induct)
  case Nil
  then show ?case by simp
next
  case (Cons u units c chs)
  then show ?case
  proof (cases c)
    case None
    with Cons show ?thesis by simp
  next
    case (Some v)
    with Cons show ?thesis by (cases v) simp_all
  qed
qed

lemma runBatch_all2:
  "list_all2 (\<lambda>u c. c \<noteq> None \<and> (\<forall>pair. c = Some (Some pair) \<longrightarrow> Plain pair = u))
     (missingTags plaintags pairs) (fst (runBatch Encrypt bk ent plaintags pairs sched s))"
proof -
  let ?units = "missingTags plaintags pairs"
  let ?chs = "fst (runBatch Encrypt bk ent plaintags pairs sched s)"
  have "?chs ! i \<noteq> None \<and> (\<forall>pair. ?chs ! i = Some (Some pair) \<longrightarrow> Plain pair = ?units ! i)"
    if "i < length ?units" for i
  proof
    have "i < length ?chs" using that by (simp add: runBatch_length)
    then have "?chs ! i \<in> set ?chs" by simp
    with runBatch_filled [of Encrypt bk ent plaintags pairs sched s]
    show "?chs ! i \<noteq> None" by metis
    show "\<forall>pair. ?chs ! i = Some (Some pair) \<longrightarrow> Plain pair = ?units ! i"
      using runBatch_sentBy [OF that, of ent Encrypt bk sched s]
      by (auto simp: sentBy_def)
  qed
  then show ?thesis
    by (simp add: list_all2_conv_all_nth runBatch_length)
qed

lemma received_Random:
  assumes "\<forall>i<length chs. sentBy ent units i (chs ! i)" and "pair \<in> set (received chs)"
  shows "\<exists>i<length chs. Random pair = RandomString RANDOM_TAG_ALPHABET RANDOM_TAG_LENGTH (draws (ent i))"
proof -
  have "Some (Some pair) \<in> set chs"
    using assms(2) by (induction chs rule: received.induct) auto
  then obtain i where "i < length chs" "chs ! i = Some (Some pair)"
    by (metis in_set_conv_nth)
  with assms(1) have "sentBy ent units i (Some (Some pair))"
    by metis
  with \<open>i < length chs\<close> show ?thesis
    by (auto simp: sentBy_def)
qed

lemma received_length:
  "None \<notin> set chs \<Longrightarrow>
   length (received chs) + length (filter (\<lambda>c. c = Some None) chs) = length chs"
  by (induction chs rule: received.induct) auto

lemma received_all:
  "None \<notin> set chs \<Longrightarrow> Some None \<notin> set chs \<Longrightarrow> map Some (map Some (received chs)) = chs"
  by (induction chs rule: received.induct) auto

section \<open>Properties of the resolution of tags\<close>

lemma scanFrom_find:
  "n = i + length ps \<Longrightarrow>
   scanFrom plain n i ps =
     (case find (\<lambda>pair. Plain pair = plain) ps of
        Some pair \<Rightarrow> Found (Random pair)
      | None \<Rightarrow> if ps = [] then Exhausted else NotFound)"
proof (induction ps arbitrary: i)
  case Nil
  then show ?case by simp
next
  case (Cons pair rest)
  show ?case
  proof (cases "plain = Plain pair")
    case True
    then show ?thesis by simp
  next
    case False
    have last: "(int i = int n - 1) = (rest = [])"
      using Cons.prems by auto
    show ?thesis
    proof (cases "rest = []")
      case True
      with False last show ?thesis by auto
    next
      case nonempty: False
      have "n = (i + 1) + length rest" using Cons.prems by simp
      from Cons.IH [OF this] False last nonempty show ?thesis
        by (auto split: option.splits)
    qed
  qed
qed

lemma scanPairs_find:
  "scanPairs plain allTagPairs =
     (case find (\<lambda>pair. Plain pair = plain) allTagPairs of
        Some pair \<Rightarrow> Found (Random pair)
      | None \<Rightarrow> if allTagPairs = [] then Exhausted else NotFound)"
  by (simp add: scanPairs_def scanFrom_find)

lemma find_None_Plain: "find (\<lambda>pair. Plain pair = plain) ps = None \<longleftrightarrow> plain \<notin> Plain ` set ps"
  by (auto simp: find_None_iff)

lemma resolveTags_Inr:
  "resolveTags allTagPairs plains randtags = Inr result \<Longrightarrow>
   result = randtags @
     map Random (List.map_filter (\<lambda>plain. find (\<lambda>pair. Plain pair = plain) allTagPairs) plains)"
proof (induction plains arbitrary: randtags)
  case Nil
  then show ?case by (simp add: List.map_filter_simps)
next
  case (Cons plain plains)
  show ?case
  proof (cases "find (\<lambda>pair. Plain pair = plain) allTagPairs")
    case None
    with Cons.prems have "resolveTags allTagPairs plains randtags = Inr result"
      by (simp add: scanPairs_find split: if_splits)
    from Cons.IH [OF this] None show ?thesis
      by (simp add: List.map_filter_simps)
  next
    case (Some pair)
    with Cons.prems have "resolveTags allTagPairs plains (randtags @ [Random pair]) = Inr result"
      by (simp add: scanPairs_find)
    from Cons.IH [OF this] Some show ?thesis
      by (simp add: List.map_filter_simps)
  qed
qed

lemma resolveTags_Inr_nonempty:
  "resolveTags allTagPairs plains randtags = Inr result \<Longrightarrow> allTagPairs \<noteq> [] \<Longrightarrow>
   set plains \<subseteq> Plain ` set allTagPairs \<and>
   result = randtags @
     map (\<lambda>plain. Random (the (find (\<lambda>pair. Plain pair = plain) allTagPairs))) plains"
proof (induction plains arbitrary: randtags)
  case Nil
  then show ?case by simp
next
  case (Cons plain plains)
  show ?case
  proof (cases "find (\<lambda>pair. Plain pair = plain) allTagPairs")
    case None
    with Cons.prems show ?thesis by (simp add: scanPairs_find)
  next
    case (Some pair)
    then have "plain \<in> Plain ` set allTagPairs"
      using find_None_Plain [of plain allTagPairs] by simp
    moreover from Some Cons.prems
    have "resolveTags allTagPairs plains (randtags @ [Random pair]) = Inr result"
      by (simp add: scanPairs_find)
    from Cons.IH [OF this Cons.prems(2)] Some
    have "set plains \<subseteq> Plain ` set allTagPairs"
      and "result = randtags @
        map (\<lambda>plain. Random (the (find (\<lambda>pair. Plain pair = plain) allTagPairs))) (plain # plains)"
      by simp_all
    ultimately show ?thesis by simp
  qed
qed

lemma resolveTags_Inl:
  "resolveTags allTagPairs plains randtags = Inl err \<Longrightarrow>
   \<exists>plain \<in> set plains. err = MissingTagPairError plain \<and> plain \<notin> Plain ` set allTagPairs"
proof (induction plains arbitrary: randtags)
  case Nil
  then show ?case by simp
next
  case (Cons plain plains)
  show ?case
  proof (cases "find (\<lambda>pair. Plain pair = plain) allTagPairs")
    case None
    then have "plain \<notin> Plain ` set allTagPairs"
      by (simp add: find_None_Plain)
    with None Cons show ?thesis
      by (auto simp: scanPairs_find split: if_splits)
  next
    case (Some pair)
    with Cons show ?thesis
      by (auto simp: scanPairs_find)
  qed
qed

lemma resolveTags_missing:
  "allTagPairs \<noteq> [] \<Longrightarrow> plain \<in> set plains \<Longrightarrow> plain \<notin> Plain ` set allTagPairs \<Longrightarrow>
   \<exists>plain'. resolveTags allTagPairs plains randtags = Inl (MissingTagPairError plain')"
proof (induction plains arbitrary: randtags)
  case Nil
  then show ?case by simp
next
  case (Cons p plains)
  show ?case
  proof (cases "find (\<lambda>pair. Plain pair = p) allTagPairs")
    case None
    with Cons.prems(1) show ?thesis by (simp add: scanPairs_find)
  next
    case (Some pair)
    then have "p \<in> Plain ` set allTagPairs"
      using find_None_Plain [of p allTagPairs] by simp
    with Cons.prems have "plain \<in> set plains" by auto
    from Cons.IH [OF Cons.prems(1) this Cons.prems(3)] Some show ?thesis
      by (simp add: scanPairs_find)
  qed
qed

lemma resolveTags_empty: "resolveTags [] plains randtags = Inr randtags"
  by (induction plains arbitrary: randtags) (simp_all add: scanPairs_def)

lemma count_Plain: "length (filter (\<lambda>pair. Plain pair = p) xs) = count_list (map Plain xs) p"
  by (induction xs) auto

lemma count_list_filter: "count_list (filter P ys) p = (if P p then count_list ys p else 0)"
  by (induction ys) auto

lemma resolveTags_all_match:
  "set plains \<subseteq> Plain ` set allTagPairs \<Longrightarrow>
   resolveTags allTagPairs plains randtags =
     Inr (randtags @
       map (\<lambda>plain. Random (the (find (\<lambda>pair. Plain pair = plain) allTagPairs))) plains)"
proof (induction plains arbitrary: randtags)
  case Nil
  then show ?case by simp
next
  case (Cons plain plains)
  then have "find (\<lambda>pair. Plain pair = plain) allTagPairs \<noteq> None"
    by (simp add: find_None_Plain)
  then obtain pair where "find (\<lambda>pair. Plain pair = plain) allTagPairs = Some pair"
    by auto
  with Cons show ?case
    by (simp add: scanPairs_find)
qed

lemma alphabet_facts:
  "length RANDOM_TAG_ALPHABET = 36" "distinct RANDOM_TAG_ALPHABET" "RANDOM_TAG_ALPHABET \<noteq> []"
  by (simp_all add: RANDOM_TAG_ALPHABET_def)

section \<open>Properties of the two functions\<close>

lemma completionOrder_perm:
  assumes "distinct order" and "set order = {..<n}"
  shows "completionOrder n order = order"
proof -
  have "filter (\<lambda>i. i < n) order = order"
    using assms(2) by (intro filter_True) auto
  moreover have "filter (\<lambda>i. i \<notin> set order) [0..<n] = []"
    using assms(2) by (auto simp: filter_empty_conv)
  ultimately show ?thesis
    using assms(1) by (simp add: completionOrder_def distinct_remdups_id)
qed

lemma received_no_failure:
  assumes "Some None \<notin> set (fst (runBatch Encrypt bk ent plaintags pairs sched s))"
  shows "map Plain (received (fst (runBatch Encrypt bk ent plaintags pairs sched s))) =
         missingTags plaintags pairs"
proof -
  let ?units = "missingTags plaintags pairs"
  let ?chs = "fst (runBatch Encrypt bk ent plaintags pairs sched s)"
  have "\<forall>x \<in> set (zip ?units ?chs). (\<lambda>(plain, c). c \<noteq> Some None) x"
    using assms by (auto dest: set_zip_rightD)
  then have "filter (\<lambda>(plain, c). c \<noteq> Some None) (zip ?units ?chs) = zip ?units ?chs"
    by (rule filter_True)
  moreover have "length ?units = length ?chs"
    by (simp add: runBatch_length)
  ultimately show ?thesis
    by (simp add: received_Plain [OF runBatch_all2])
qed

lemma received_Random_format:
  assumes "pair \<in> set (received (fst (runBatch Encrypt bk ent plaintags pairs sched s)))"
  shows "length (Random pair) = 9 \<and> set (Random pair) \<subseteq> set RANDOM_TAG_ALPHABET"
proof -
  let ?units = "missingTags plaintags pairs"
  let ?chs = "fst (runBatch Encrypt bk ent plaintags pairs sched s)"
  have "\<forall>i<length ?chs. sentBy ent ?units i (?chs ! i)"
    by (simp add: runBatch_length runBatch_sentBy)
  from received_Random [OF this assms] obtain i where
    "Random pair = RandomString RANDOM_TAG_ALPHABET RANDOM_TAG_LENGTH (draws (ent i))"
    by blast
  then show ?thesis
    using RandomString_set [OF alphabet_facts(3)]
    by (simp add: RandomString_length RANDOM_TAG_LENGTH_def)
qed

lemma PopulateRowBeforeSave_eq:
  "PopulateRowBeforeSave Encrypt bk ent row pairs sched s =
     (case runBatch Encrypt bk ent (PlainTags row) pairs sched s of
        (chs, s') \<Rightarrow>
          (case resolveTags (pairs @ received chs) (PlainTags row) [] of
             Inl err \<Rightarrow> Some (received chs, Some err, row, s')
           | Inr randtags \<Rightarrow>
               (case Encrypt (Decrypted row) (RowNonce row) (Key bk) of
                  Inl err \<Rightarrow>
                    Some (received chs, Some (CryptoError err), row\<lparr>RandomTags := randtags\<rparr>, s')
                | Inr encData \<Rightarrow>
                    Some (received chs, None,
                          row\<lparr>RandomTags := randtags, Encrypted := encData\<rparr>, s'))))"
  by (simp add: PopulateRowBeforeSave_def CreateTagsFromPlain_eq Let_def split: prod.splits sum.splits)

section \<open>The claims\<close>


text \<open>
  C2. Whatever the cipher, the backend, the entropy and the schedule are, and so whichever
  goroutines fail, \<^verbatim>\<open>CreateTagsFromPlain\<close> returns, and its error is \<^verbatim>\<open>nil\<close>; a failed
  creation only makes the returned sequence shorter: its length is the number of
  goroutines started less the number of those that sent \<^verbatim>\<open>nil\<close>.
\<close>

theorem CreateTagsFromPlain_error_nil:
  "\<exists>newPairs s'.
     CreateTagsFromPlain Encrypt bk ent plaintags pairs sched s = Some (newPairs, None, s') \<and>
     length newPairs +
       length (filter (\<lambda>c. c = Some None)
                 (fst (runBatch Encrypt bk ent plaintags pairs sched s))) =
     length (missingTags plaintags pairs)"
  by (simp add: CreateTagsFromPlain_eq received_length [OF runBatch_filled] runBatch_length)

text \<open>
  C3. For every schedule of the goroutines, the plaintext values of the returned pairs
  are the missing tags, in the order in which the scan of \<^verbatim>\<open>plaintags\<close> met them (the
  entries of \<^verbatim>\<open>plaintags\<close> that no known pair covers), with the entries of the goroutines
  that sent \<^verbatim>\<open>nil\<close> removed.
\<close>

theorem CreateTagsFromPlain_order:
  "\<exists>newPairs s'.
     CreateTagsFromPlain Encrypt bk ent plaintags pairs sched s = Some (newPairs, None, s') \<and>
     map Plain newPairs =
       map fst (filter (\<lambda>(plain, c). c \<noteq> Some None)
                  (zip (missingTags plaintags pairs)
                       (fst (runBatch Encrypt bk ent plaintags pairs sched s)))) \<and>
     missingTags plaintags pairs = filter (\<lambda>plain. plain \<notin> Plain ` set pairs) plaintags"
  by (simp add: CreateTagsFromPlain_eq received_Plain [OF runBatch_all2] missingTags_filter)

text \<open>
  C4. One new pair per missing tag does not hold when a missing tag occurs twice in
  \<^verbatim>\<open>plaintags\<close>: the scan starts one goroutine per occurrence, and with a backend that
  stores every pair the call returns two pairs whose plaintext is \<open>a\<close>.
\<close>

theorem CreateTagsFromPlain_duplicate_plaintag:
  "Some None \<notin> set (fst (runBatch demoCipher memBackend unitEntropy [''a'', ''a''] [] [] [])) \<and>
   ''a'' \<notin> set (AllPlain []) \<and>
   CreateTagsFromPlain demoCipher memBackend unitEntropy [''a'', ''a''] [] [] [] =
     Some ([\<lparr>PlainEncrypted = [1, 97], Random = ''abcdefghi'', Nonce = [1], Plain = ''a''\<rparr>,
            \<lparr>PlainEncrypted = [2, 97], Random = ''hijklmnop'', Nonce = [2], Plain = ''a''\<rparr>],
           None,
           [\<lparr>PlainEncrypted = [1, 97], Random = ''abcdefghi'', Nonce = [1], Plain = ''a''\<rparr>,
            \<lparr>PlainEncrypted = [2, 97], Random = ''hijklmnop'', Nonce = [2], Plain = ''a''\<rparr>]) \<and>
   length (filter (\<lambda>pair. Plain pair = ''a'')
     [\<lparr>PlainEncrypted = [1, 97], Random = ''abcdefghi'', Nonce = [1], Plain = ''a''\<rparr>,
      \<lparr>PlainEncrypted = [2, 97], Random = ''hijklmnop'', Nonce = [2], Plain = ''a''\<rparr>]) = 2"
  by code_simp

text \<open>
  C4, as the code has it. When no goroutine fails, a plaintext tag \<open>p\<close> that no known pair
  covers gets as many new pairs as it has occurrences in \<^verbatim>\<open>plaintags\<close> (exactly one when it
  occurs once), and the random tag of every new pair has length 9 and is made of symbols
  of the alphabet, which has 36 symbols.
\<close>

theorem CreateTagsFromPlain_pair_per_occurrence:
  assumes "Some None \<notin> set (fst (runBatch Encrypt bk ent plaintags pairs sched s))"
    and "p \<notin> set (AllPlain pairs)"
  shows "\<exists>newPairs s'.
     CreateTagsFromPlain Encrypt bk ent plaintags pairs sched s = Some (newPairs, None, s') \<and>
     length (filter (\<lambda>pair. Plain pair = p) newPairs) = count_list plaintags p \<and>
     (\<forall>pair \<in> set newPairs.
        length (Random pair) = 9 \<and> set (Random pair) \<subseteq> set RANDOM_TAG_ALPHABET) \<and>
     length RANDOM_TAG_ALPHABET = 36"
proof -
  let ?newPairs = "received (fst (runBatch Encrypt bk ent plaintags pairs sched s))"
  have "length (filter (\<lambda>pair. Plain pair = p) ?newPairs) =
        count_list (filter (\<lambda>plain. plain \<notin> Plain ` set pairs) plaintags) p"
    by (simp add: count_Plain received_no_failure [OF assms(1)] missingTags_filter)
  also have "\<dots> = count_list plaintags p"
    using assms(2) by (simp add: count_list_filter AllPlain_def)
  finally have "length (filter (\<lambda>pair. Plain pair = p) ?newPairs) = count_list plaintags p" .
  moreover have "\<forall>pair \<in> set ?newPairs.
      length (Random pair) = 9 \<and> set (Random pair) \<subseteq> set RANDOM_TAG_ALPHABET"
    by (intro ballI) (rule received_Random_format)
  ultimately show ?thesis
    by (simp add: CreateTagsFromPlain_eq alphabet_facts(1))
qed

text \<open>
  C4, on an input: \<open>2015\<close> occurs once, is not known, and gets exactly one pair.
\<close>

theorem CreateTagsFromPlain_pair_per_occurrence_witness:
  "Some None \<notin>
     set (fst (runBatch demoCipher memBackend unitEntropy [''work'', ''2015''] [workPair] [1] [])) \<and>
   ''2015'' \<notin> set (AllPlain [workPair]) \<and>
   CreateTagsFromPlain demoCipher memBackend unitEntropy [''work'', ''2015''] [workPair] [1] [] =
     Some ([\<lparr>PlainEncrypted = [1, 50, 48, 49, 53], Random = ''abcdefghi'', Nonce = [1],
              Plain = ''2015''\<rparr>],
           None,
           [\<lparr>PlainEncrypted = [1, 50, 48, 49, 53], Random = ''abcdefghi'', Nonce = [1],
              Plain = ''2015''\<rparr>]) \<and>
   length (filter (\<lambda>pair. Plain pair = ''2015'')
     [\<lparr>PlainEncrypted = [1, 50, 48, 49, 53], Random = ''abcdefghi'', Nonce = [1],
        Plain = ''2015''\<rparr>]) = count_list [''work'', ''2015''] ''2015'' \<and>
   count_list [''work'', ''2015''] ''2015'' = 1"
proof -
  have noFailure: "Some None \<notin>
     set (fst (runBatch demoCipher memBackend unitEntropy [''work'', ''2015''] [workPair] [1] []))"
    by code_simp
  have unknown: "''2015'' \<notin> set (AllPlain [workPair])"
    by code_simp
  have run: "CreateTagsFromPlain demoCipher memBackend unitEntropy [''work'', ''2015''] [workPair] [1] [] =
     Some ([\<lparr>PlainEncrypted = [1, 50, 48, 49, 53], Random = ''abcdefghi'', Nonce = [1],
              Plain = ''2015''\<rparr>],
           None,
           [\<lparr>PlainEncrypted = [1, 50, 48, 49, 53], Random = ''abcdefghi'', Nonce = [1],
              Plain = ''2015''\<rparr>])"
    by code_simp
  from CreateTagsFromPlain_pair_per_occurrence [OF noFailure unknown] run noFailure unknown
  show ?thesis by simp
qed

text \<open>
  C5. A plaintext tag that a known pair covers gets no new pair: no returned pair has it
  as its plaintext.
\<close>

theorem CreateTagsFromPlain_known_not_recreated:
  assumes "p \<in> set (AllPlain pairs)"
  shows "\<exists>newPairs s'.
     CreateTagsFromPlain Encrypt bk ent plaintags pairs sched s = Some (newPairs, None, s') \<and>
     filter (\<lambda>pair. Plain pair = p) newPairs = []"
proof -
  let ?units = "missingTags plaintags pairs"
  let ?chs = "fst (runBatch Encrypt bk ent plaintags pairs sched s)"
  have "set (map Plain (received ?chs)) \<subseteq> set ?units"
    by (auto simp: received_Plain [OF runBatch_all2] dest: set_zip_leftD)
  moreover have "p \<notin> set ?units"
    using assms by (simp add: missingTags_filter AllPlain_def)
  ultimately have "\<forall>pair \<in> set (received ?chs). Plain pair \<noteq> p"
    by auto
  then have "filter (\<lambda>pair. Plain pair = p) (received ?chs) = []"
    by (simp add: filter_empty_conv)
  then show ?thesis
    by (simp add: CreateTagsFromPlain_eq)
qed

text \<open>
  C5, on an input: \<open>work\<close> is known, and the only pair created is the one of \<open>2015\<close>.
\<close>

theorem CreateTagsFromPlain_known_not_recreated_witness:
  "''work'' \<in> set (AllPlain [workPair]) \<and>
   CreateTagsFromPlain demoCipher memBackend unitEntropy [''work'', ''2015''] [workPair] [] [] =
     Some ([\<lparr>PlainEncrypted = [1, 50, 48, 49, 53], Random = ''abcdefghi'', Nonce = [1],
              Plain = ''2015''\<rparr>],
           None,
           [\<lparr>PlainEncrypted = [1, 50, 48, 49, 53], Random = ''abcdefghi'', Nonce = [1],
              Plain = ''2015''\<rparr>]) \<and>
   filter (\<lambda>pair. Plain pair = ''work'')
     [\<lparr>PlainEncrypted = [1, 50, 48, 49, 53], Random = ''abcdefghi'', Nonce = [1],
        Plain = ''2015''\<rparr>] = []"
proof -
  have known: "''work'' \<in> set (AllPlain [workPair])"
    by code_simp
  have run: "CreateTagsFromPlain demoCipher memBackend unitEntropy [''work'', ''2015''] [workPair] [] [] =
     Some ([\<lparr>PlainEncrypted = [1, 50, 48, 49, 53], Random = ''abcdefghi'', Nonce = [1],
              Plain = ''2015''\<rparr>],
           None,
           [\<lparr>PlainEncrypted = [1, 50, 48, 49, 53], Random = ''abcdefghi'', Nonce = [1],
              Plain = ''2015''\<rparr>])"
    by code_simp
  from CreateTagsFromPlain_known_not_recreated
         [OF known, of demoCipher memBackend unitEntropy "[''work'', ''2015'']" "[]" "[]"]
       run known
  show ?thesis by simp
qed

text \<open>
  C6. When \<^verbatim>\<open>PopulateRowBeforeSave\<close> assigns \<^verbatim>\<open>row.RandomTags\<close> (it returns no error, or
  the error of the payload encryption), the random tags are, in the order of the
  plaintext tags of the row, the random field of the first pair with that plaintext in
  \<^verbatim>\<open>pairs\<close> followed by \<^verbatim>\<open>newPairs\<close>, for each plaintext tag that has such a pair.
\<close>

theorem PopulateRowBeforeSave_first_match:
  assumes "PopulateRowBeforeSave Encrypt bk ent row pairs sched s = Some (newPairs, err, row', s')"
    and "err = None \<or> err = Some (CryptoError e)"
  shows "RandomTags row' =
     map Random
       (List.map_filter (\<lambda>plain. find (\<lambda>pair. Plain pair = plain) (pairs @ newPairs))
          (PlainTags row))"
proof -
  obtain chs s1 where rb: "runBatch Encrypt bk ent (PlainTags row) pairs sched s = (chs, s1)"
    by (cases "runBatch Encrypt bk ent (PlainTags row) pairs sched s")
  show ?thesis
  proof (cases "resolveTags (pairs @ received chs) (PlainTags row) []")
    case (Inl missing)
    with assms(1) rb have "err = Some missing"
      by (simp add: PopulateRowBeforeSave_eq)
    moreover from resolveTags_Inl [OF Inl] obtain plain where "missing = MissingTagPairError plain"
      by blast
    ultimately show ?thesis using assms(2) by auto
  next
    case (Inr randtags)
    with assms(1) rb have "newPairs = received chs" and "RandomTags row' = randtags"
      by (auto simp: PopulateRowBeforeSave_eq split: sum.splits)
    with resolveTags_Inr [OF Inr] show ?thesis by simp
  qed
qed

text \<open>
  C6, on an input: two known pairs have the plaintext \<open>work\<close>, and the random tag of the
  first one is taken.
\<close>

theorem PopulateRowBeforeSave_first_match_witness:
  "PopulateRowBeforeSave demoCipher memBackend unitEntropy (demoRow [''work'', ''2015''] [9])
     [workPair, workPair2] [] [] =
     Some ([\<lparr>PlainEncrypted = [1, 50, 48, 49, 53], Random = ''abcdefghi'', Nonce = [1],
              Plain = ''2015''\<rparr>],
           None,
           \<lparr>Encrypted = [9, 104, 105], RandomTags = [''known0001'', ''abcdefghi''],
              Decrypted = [104, 105], PlainTags = [''work'', ''2015''], RowNonce = [9]\<rparr>,
           [\<lparr>PlainEncrypted = [1, 50, 48, 49, 53], Random = ''abcdefghi'', Nonce = [1],
              Plain = ''2015''\<rparr>]) \<and>
   [''known0001'', ''abcdefghi''] =
     map Random
       (List.map_filter
          (\<lambda>plain. find (\<lambda>pair. Plain pair = plain)
             ([workPair, workPair2] @
              [\<lparr>PlainEncrypted = [1, 50, 48, 49, 53], Random = ''abcdefghi'', Nonce = [1],
                 Plain = ''2015''\<rparr>]))
          (PlainTags (demoRow [''work'', ''2015''] [9])))"
proof -
  have run: "PopulateRowBeforeSave demoCipher memBackend unitEntropy
     (demoRow [''work'', ''2015''] [9]) [workPair, workPair2] [] [] =
     Some ([\<lparr>PlainEncrypted = [1, 50, 48, 49, 53], Random = ''abcdefghi'', Nonce = [1],
              Plain = ''2015''\<rparr>],
           None,
           \<lparr>Encrypted = [9, 104, 105], RandomTags = [''known0001'', ''abcdefghi''],
              Decrypted = [104, 105], PlainTags = [''work'', ''2015''], RowNonce = [9]\<rparr>,
           [\<lparr>PlainEncrypted = [1, 50, 48, 49, 53], Random = ''abcdefghi'', Nonce = [1],
              Plain = ''2015''\<rparr>])"
    by code_simp
  from PopulateRowBeforeSave_first_match [OF run] run show ?thesis by simp
qed

text \<open>
  C7. When \<^verbatim>\<open>PopulateRowBeforeSave\<close> returns the error of a missing pair, the tag the
  error names is a plaintext tag of the row without a pair in \<^verbatim>\<open>pairs\<close> followed by
  \<^verbatim>\<open>newPairs\<close>, the message holds that tag, and the row is as it was: neither
  \<^verbatim>\<open>row.Encrypted\<close> nor \<^verbatim>\<open>row.RandomTags\<close> has changed.
\<close>

theorem PopulateRowBeforeSave_missing_pair:
  assumes "PopulateRowBeforeSave Encrypt bk ent row pairs sched s =
             Some (newPairs, Some (MissingTagPairError plain), row', s')"
  shows "plain \<in> set (PlainTags row) \<and> plain \<notin> Plain ` set (pairs @ newPairs) \<and>
         Error (MissingTagPairError plain) =
           ''No corresponding TagPair found for plain tag `'' @ plain @ ''`'' \<and>
         Encrypted row' = Encrypted row \<and> RandomTags row' = RandomTags row \<and> row' = row"
proof -
  obtain chs s1 where rb: "runBatch Encrypt bk ent (PlainTags row) pairs sched s = (chs, s1)"
    by (cases "runBatch Encrypt bk ent (PlainTags row) pairs sched s")
  show ?thesis
  proof (cases "resolveTags (pairs @ received chs) (PlainTags row) []")
    case (Inl missing)
    with assms rb have "newPairs = received chs" "missing = MissingTagPairError plain" "row' = row"
      by (simp_all add: PopulateRowBeforeSave_eq)
    with resolveTags_Inl [OF Inl] show ?thesis by auto
  next
    case (Inr randtags)
    with assms rb show ?thesis
      by (simp add: PopulateRowBeforeSave_eq split: sum.splits)
  qed
qed

text \<open>
  C7, on an input: the backend refuses the pair of \<open>2015\<close>, \<open>work\<close> is known.
\<close>

theorem PopulateRowBeforeSave_missing_pair_witness:
  "PopulateRowBeforeSave demoCipher downBackend unitEntropy (demoRow [''work'', ''2015''] [9])
     [workPair] [] [] =
     Some ([], Some (MissingTagPairError ''2015''), demoRow [''work'', ''2015''] [9], []) \<and>
   ''2015'' \<in> set (PlainTags (demoRow [''work'', ''2015''] [9])) \<and>
   ''2015'' \<notin> Plain ` set ([workPair] @ []) \<and>
   Error (MissingTagPairError ''2015'') =
     ''No corresponding TagPair found for plain tag `2015`'' \<and>
   Encrypted (demoRow [''work'', ''2015''] [9]) = [0] \<and>
   RandomTags (demoRow [''work'', ''2015''] [9]) = [''stale'']"
proof -
  have run: "PopulateRowBeforeSave demoCipher downBackend unitEntropy
     (demoRow [''work'', ''2015''] [9]) [workPair] [] [] =
     Some ([], Some (MissingTagPairError ''2015''), demoRow [''work'', ''2015''] [9], [])"
    by code_simp
  from PopulateRowBeforeSave_missing_pair [OF run] run show ?thesis
    by (simp add: demoRow_def)
qed

text \<open>
  C9. When \<^verbatim>\<open>PopulateRowBeforeSave\<close> returns an error, its first result is the sequence
  that \<^verbatim>\<open>CreateTagsFromPlain\<close> returned, and the backend is in the state in which the
  batch creation left it: what \<^verbatim>\<open>SaveTagPair\<close> did is not undone.
\<close>

theorem PopulateRowBeforeSave_error_keeps_batch:
  assumes "PopulateRowBeforeSave Encrypt bk ent row pairs sched s =
             Some (newPairs, Some err, row', s')"
  shows "CreateTagsFromPlain Encrypt bk ent (PlainTags row) pairs sched s =
           Some (newPairs, None, s')"
  using assms
  by (auto simp: PopulateRowBeforeSave_eq CreateTagsFromPlain_eq split: prod.splits sum.splits)

text \<open>
  C9, on an input: the backend stores the pair of \<open>work\<close> and refuses the pair of
  \<open>2015\<close>; the call fails and the pair of \<open>work\<close> is returned and still stored.
\<close>

theorem PopulateRowBeforeSave_error_keeps_batch_witness:
  "PopulateRowBeforeSave demoCipher fullBackend unitEntropy (demoRow [''work'', ''2015''] [9])
     [] [] [] =
     Some ([\<lparr>PlainEncrypted = [1, 119, 111, 114, 107], Random = ''abcdefghi'', Nonce = [1],
              Plain = ''work''\<rparr>],
           Some (MissingTagPairError ''2015''),
           demoRow [''work'', ''2015''] [9],
           [\<lparr>PlainEncrypted = [1, 119, 111, 114, 107], Random = ''abcdefghi'', Nonce = [1],
              Plain = ''work''\<rparr>]) \<and>
   CreateTagsFromPlain demoCipher fullBackend unitEntropy
     (PlainTags (demoRow [''work'', ''2015''] [9])) [] [] [] =
     Some ([\<lparr>PlainEncrypted = [1, 119, 111, 114, 107], Random = ''abcdefghi'', Nonce = [1],
              Plain = ''work''\<rparr>],
           None,
           [\<lparr>PlainEncrypted = [1, 119, 111, 114, 107], Random = ''abcdefghi'', Nonce = [1],
              Plain = ''work''\<rparr>])"
proof -
  have run: "PopulateRowBeforeSave demoCipher fullBackend unitEntropy
     (demoRow [''work'', ''2015''] [9]) [] [] [] =
     Some ([\<lparr>PlainEncrypted = [1, 119, 111, 114, 107], Random = ''abcdefghi'', Nonce = [1],
              Plain = ''work''\<rparr>],
           Some (MissingTagPairError ''2015''),
           demoRow [''work'', ''2015''] [9],
           [\<lparr>PlainEncrypted = [1, 119, 111, 114, 107], Random = ''abcdefghi'', Nonce = [1],
              Plain = ''work''\<rparr>])"
    by code_simp
  from PopulateRowBeforeSave_error_keeps_batch [OF run] run show ?thesis by simp
qed

text \<open>
  C10. When every plaintext tag of the row has a pair and the encryption of the payload
  fails, \<^verbatim>\<open>PopulateRowBeforeSave\<close> returns the error of the encryption; \<^verbatim>\<open>row.Encrypted\<close>
  is unchanged and \<^verbatim>\<open>row.RandomTags\<close> holds the random tags just resolved.
\<close>

theorem PopulateRowBeforeSave_encryption_failure:
  assumes "CreateTagsFromPlain Encrypt bk ent (PlainTags row) pairs sched s =
             Some (newPairs, batchErr, s')"
    and "set (PlainTags row) \<subseteq> Plain ` set (pairs @ newPairs)"
    and "Encrypt (Decrypted row) (RowNonce row) (Key bk) = Inl err"
  shows "\<exists>row'.
     PopulateRowBeforeSave Encrypt bk ent row pairs sched s =
       Some (newPairs, Some (CryptoError err), row', s') \<and>
     Encrypted row' = Encrypted row \<and>
     RandomTags row' =
       map (\<lambda>plain. Random (the (find (\<lambda>pair. Plain pair = plain) (pairs @ newPairs))))
         (PlainTags row)"
proof -
  obtain chs s1 where rb: "runBatch Encrypt bk ent (PlainTags row) pairs sched s = (chs, s1)"
    by (cases "runBatch Encrypt bk ent (PlainTags row) pairs sched s")
  with assms(1) have eq: "newPairs = received chs" "s' = s1"
    by (simp_all add: CreateTagsFromPlain_eq)
  show ?thesis
    using assms(3) rb
    by (simp add: PopulateRowBeforeSave_eq eq resolveTags_all_match [OF assms(2) [unfolded eq]])
qed

text \<open>
  C10, on an input: the row has no nonce, so the cipher fails; the random tags of the row
  were \<open>stale\<close> and are now the resolved ones.
\<close>

theorem PopulateRowBeforeSave_encryption_failure_witness:
  "CreateTagsFromPlain demoCipher memBackend unitEntropy
     (PlainTags (demoRow [''work'', ''2015''] [])) [workPair] [] [] =
     Some ([\<lparr>PlainEncrypted = [1, 50, 48, 49, 53], Random = ''abcdefghi'', Nonce = [1],
              Plain = ''2015''\<rparr>],
           None,
           [\<lparr>PlainEncrypted = [1, 50, 48, 49, 53], Random = ''abcdefghi'', Nonce = [1],
              Plain = ''2015''\<rparr>]) \<and>
   set (PlainTags (demoRow [''work'', ''2015''] [])) \<subseteq>
     Plain ` set ([workPair] @
       [\<lparr>PlainEncrypted = [1, 50, 48, 49, 53], Random = ''abcdefghi'', Nonce = [1],
          Plain = ''2015''\<rparr>]) \<and>
   demoCipher (Decrypted (demoRow [''work'', ''2015''] []))
     (RowNonce (demoRow [''work'', ''2015''] [])) (Key memBackend) =
     Inl (External ''nil nonce'') \<and>
   PopulateRowBeforeSave demoCipher memBackend unitEntropy (demoRow [''work'', ''2015''] [])
     [workPair] [] [] =
     Some ([\<lparr>PlainEncrypted = [1, 50, 48, 49, 53], Random = ''abcdefghi'', Nonce = [1],
              Plain = ''2015''\<rparr>],
           Some (CryptoError (External ''nil nonce'')),
           \<lparr>Encrypted = [0], RandomTags = [''known0001'', ''abcdefghi''],
              Decrypted = [104, 105], PlainTags = [''work'', ''2015''], RowNonce = []\<rparr>,
           [\<lparr>PlainEncrypted = [1, 50, 48, 49, 53], Random = ''abcdefghi'', Nonce = [1],
              Plain = ''2015''\<rparr>]) \<and>
   Encrypted (demoRow [''work'', ''2015''] []) = [0] \<and>
   RandomTags (demoRow [''work'', ''2015''] []) = [''stale'']"
proof -
  let ?new = "\<lparr>PlainEncrypted = [1, 50, 48, 49, 53], Random = ''abcdefghi'', Nonce = [1],
                Plain = ''2015''\<rparr>"
  let ?row = "demoRow [''work'', ''2015''] []"
  have batch: "CreateTagsFromPlain demoCipher memBackend unitEntropy (PlainTags ?row)
     [workPair] [] [] = Some ([?new], None, [?new])"
    by code_simp
  have resolved: "set (PlainTags ?row) \<subseteq> Plain ` set ([workPair] @ [?new])"
    by (simp add: demoRow_def workPair_def)
  have failure: "demoCipher (Decrypted ?row) (RowNonce ?row) (Key memBackend) =
     Inl (External ''nil nonce'')"
    by (simp add: demoCipher_def demoRow_def)
  from PopulateRowBeforeSave_encryption_failure [OF batch resolved failure]
  obtain row' where
    "PopulateRowBeforeSave demoCipher memBackend unitEntropy ?row [workPair] [] [] =
       Some ([?new], Some (CryptoError (External ''nil nonce'')), row', [?new])"
    and "Encrypted row' = Encrypted ?row"
    and "RandomTags row' =
       map (\<lambda>plain. Random (the (find (\<lambda>pair. Plain pair = plain) ([workPair] @ [?new]))))
         (PlainTags ?row)"
    by blast
  moreover have "PopulateRowBeforeSave demoCipher memBackend unitEntropy ?row [workPair] [] [] =
       Some ([?new], Some (CryptoError (External ''nil nonce'')),
         \<lparr>Encrypted = [0], RandomTags = [''known0001'', ''abcdefghi''],
            Decrypted = [104, 105], PlainTags = [''work'', ''2015''], RowNonce = []\<rparr>, [?new])"
    by code_simp
  ultimately show ?thesis
    using batch resolved failure by (simp add: demoRow_def)
qed

text \<open>
  C1. The check for a missing pair is made inside the loop over \<^verbatim>\<open>allTagPairs\<close>, at its
  last index, so it is never made when \<^verbatim>\<open>allTagPairs\<close> is empty. With no known pair and a
  backend that refuses every pair, the row has two plaintext tags without a pair and the
  call returns no error: the row is encrypted, with no random tag.
\<close>

theorem PopulateRowBeforeSave_unmatched_tag_no_error:
  "PopulateRowBeforeSave demoCipher downBackend unitEntropy (demoRow [''work'', ''2015''] [9])
     [] [] [] =
     Some ([], None,
           \<lparr>Encrypted = [9, 104, 105], RandomTags = [], Decrypted = [104, 105],
              PlainTags = [''work'', ''2015''], RowNonce = [9]\<rparr>,
           [])"
  by code_simp

text \<open>
  C8. With no known pair and a backend that refuses every pair, \<^verbatim>\<open>allTagPairs\<close> is
  empty and the check for a missing pair is never made: \<^verbatim>\<open>PopulateRowBeforeSave\<close> returns
  no error and \<^verbatim>\<open>row.RandomTags\<close> is empty, while the row has one plaintext tag.
\<close>

theorem PopulateRowBeforeSave_success_no_random_tag:
  "map_option (\<lambda>(newPairs, err, row', s'). (err, RandomTags row', PlainTags row'))
     (PopulateRowBeforeSave demoCipher downBackend unitEntropy (demoRow [''a''] [9]) [] [] []) =
   Some (None, [], [''a''])"
  by code_simp

end
